theory Spec2Isabelle
  imports Complex_Main "HOL-Library.Char_ord" "HOL-Library.List_Lexorder" "HOL-Library.Multiset"
begin

section \<open>Tables\<close>

text \<open>
  A cell of a table is a string, a number or the missing value. Strings are compared as
  Python compares them, character by character with a proper prefix first; this is the
  order that \<open>Char_ord\<close> and \<open>List_Lexorder\<close> give to \<open>string\<close>.
\<close>

datatype cell = Str string | Num real | NaN

datatype error = KeyError string | TypeError | ValueError | AttributeError

text \<open>An exception ends the computation: the steps after it are not run.\<close>

definition and_then :: "error + 'a \<Rightarrow> ('a \<Rightarrow> error + 'b) \<Rightarrow> error + 'b" where
  "and_then m k = (case m of Inl e \<Rightarrow> Inl e | Inr x \<Rightarrow> k x)"

text \<open>
  A table has its column names, the categories of the columns that are categorical, and
  its rows. A row gives a cell for every column name; only the names in \<open>columns\<close> count.
\<close>

record frame =
  columns :: "string list"
  categories :: "string \<Rightarrow> cell list option"
  rows :: "(string \<Rightarrow> cell) list"

text \<open>The table \<open>pd.DataFrame()\<close>: no column and no row.\<close>

definition DataFrame :: frame where
  "DataFrame = \<lparr>columns = [], categories = (\<lambda>c. None), rows = []\<rparr>"

text \<open>\<open>f[c]\<close>: the cells of column \<open>c\<close>, or the KeyError of a name that is no column.\<close>

definition getcol :: "frame \<Rightarrow> string \<Rightarrow> error + cell list" where
  "getcol f c =
     (if c \<in> set (columns f) then Inr (map (\<lambda>r. r c) (rows f)) else Inl (KeyError c))"

text \<open>\<open>f[c] = vals\<close> with the categorical type \<open>cats\<close> (None for a plain column).\<close>

definition setcol :: "frame \<Rightarrow> string \<Rightarrow> cell list \<Rightarrow> cell list option \<Rightarrow> error + frame" where
  "setcol f c vals cats =
     (if length vals \<noteq> length (rows f) then Inl ValueError
      else Inr \<lparr>columns = (if c \<in> set (columns f) then columns f else columns f @ [c]),
                categories = (categories f)(c := cats),
                rows = map (\<lambda>(r, v). r(c := v)) (zip (rows f) vals)\<rparr>)"

text \<open>\<open>f[mask]\<close>: the rows at which the mask is true, in the order of the table.\<close>

definition getmask :: "frame \<Rightarrow> bool list \<Rightarrow> frame" where
  "getmask f m = f\<lparr>rows := map fst (filter snd (zip (rows f) m))\<rparr>"

text \<open>\<open>col.isin(vals)\<close> for a list of strings: a number and the missing value are in no such list.\<close>

definition isin :: "cell list \<Rightarrow> string list \<Rightarrow> bool list" where
  "isin col vals = map (\<lambda>c. case c of Str s \<Rightarrow> s \<in> set vals | _ \<Rightarrow> False) col"

text \<open>
  \<open>col >= n\<close> and \<open>col <= n\<close>: a comparison with the missing value is false, and a string in
  the column makes the comparison with a number raise.
\<close>

definition is_Str :: "cell \<Rightarrow> bool" where
  "is_Str c = (case c of Str s \<Rightarrow> True | _ \<Rightarrow> False)"

definition is_Num :: "cell \<Rightarrow> bool" where
  "is_Num c = (case c of Num y \<Rightarrow> True | _ \<Rightarrow> False)"

definition col_ge :: "cell list \<Rightarrow> int \<Rightarrow> error + bool list" where
  "col_ge col n =
     (if list_ex is_Str col then Inl TypeError
      else Inr (map (\<lambda>c. case c of Num y \<Rightarrow> real_of_int n \<le> y | _ \<Rightarrow> False) col))"

definition col_le :: "cell list \<Rightarrow> int \<Rightarrow> error + bool list" where
  "col_le col n =
     (if list_ex is_Str col then Inl TypeError
      else Inr (map (\<lambda>c. case c of Num y \<Rightarrow> y \<le> real_of_int n | _ \<Rightarrow> False) col))"

definition mask_and :: "bool list \<Rightarrow> bool list \<Rightarrow> bool list" where
  "mask_and a b = map (\<lambda>(x, y). x \<and> y) (zip a b)"

text \<open>\<open>col.unique()\<close>: the distinct cells, each at its first occurrence.\<close>

definition unique :: "cell list \<Rightarrow> cell list" where
  "unique col = rev (remdups (rev col))"

text \<open>
  \<open>sorted(cells)\<close>: strings in string order, numbers in numeric order; a string beside a cell
  that is no string cannot be compared. A missing value among numbers does not raise here
  (it raises in \<open>Categorical\<close>), and where it lands is not specified by Python: the model
  puts it last.
\<close>

definition str_of :: "cell \<Rightarrow> string" where
  "str_of c = (case c of Str s \<Rightarrow> s | _ \<Rightarrow> [])"

definition num_of :: "cell \<Rightarrow> real" where
  "num_of c = (case c of Num y \<Rightarrow> y | _ \<Rightarrow> 0)"

definition sorted_py :: "cell list \<Rightarrow> error + cell list" where
  "sorted_py cs =
     (if list_all is_Str cs then Inr (sort_key str_of cs)
      else if list_ex is_Str cs then Inl TypeError
      else Inr (sort_key num_of (filter is_Num cs) @ filter (\<lambda>c. c = NaN) cs))"

text \<open>
  \<open>pd.Categorical(vals, categories=cats, ordered=True)\<close>: the categories must be distinct
  and none of them missing; a value that is no category becomes missing.
\<close>

definition Categorical :: "cell list \<Rightarrow> cell list \<Rightarrow> error + cell list" where
  "Categorical vals cats =
     (if NaN \<in> set cats \<or> \<not> distinct cats then Inl ValueError
      else Inr (map (\<lambda>v. if v \<in> set cats then v else NaN) vals))"

section \<open>The selection\<close>

record selection =
  price_selector :: string
  selected_types :: "string list"
  selected_quarters :: "string list"
  year_range :: "(int \<times> int) option"

section \<open>Filtering\<close>

text \<open>
  The tables live in a store, a list indexed by address, so that what a function does to
  the table it builds can be told from what it does to the table it reads. \<open>alloc\<close> puts a
  new table at the next address.
\<close>

definition alloc :: "frame \<Rightarrow> frame list \<Rightarrow> nat \<times> frame list" where
  "alloc f h = (length h, h @ [f])"

text \<open>
  The mask of \<open>get_filtered_data\<close>, its four column tests evaluated from left to right.
\<close>

definition row_mask :: "frame \<Rightarrow> string list \<Rightarrow> int \<Rightarrow> int \<Rightarrow> string list \<Rightarrow> error + bool list" where
  "row_mask f types yr_min yr_max quarters =
     and_then (getcol f ''Type'') (\<lambda>ty.
     and_then (getcol f ''Year'') (\<lambda>yr.
     and_then (col_ge yr yr_min) (\<lambda>ge.
     and_then (col_le yr yr_max) (\<lambda>le.
     and_then (getcol f ''Quarter'') (\<lambda>qu.
       Inr (mask_and (mask_and (mask_and (isin ty types) ge) le) (isin qu quarters)))))))"

text \<open>
  The re-typing of \<open>Time\<close>: the column becomes categorical, its categories the sorted
  distinct labels of the table.
\<close>

definition retype_time :: "frame \<Rightarrow> error + frame" where
  "retype_time d =
     and_then (getcol d ''Time'') (\<lambda>tm.
     and_then (sorted_py (unique tm)) (\<lambda>unique_time.
     and_then (Categorical tm unique_time) (\<lambda>col.
       setcol d ''Time'' col (Some unique_time))))"

text \<open>
  \<open>get_filtered_data\<close> reads the selection and the table at the address \<open>stumpage\<close>. It
  returns None, or the address of a new table, or the exception raised; the store is
  returned in every case.
\<close>

definition get_filtered_data ::
  "selection \<Rightarrow> nat \<Rightarrow> frame list \<Rightarrow> (error + nat option) \<times> frame list" where
  "get_filtered_data sel stumpage h =
     (if selected_types sel = [] \<or> selected_quarters sel = [] \<or> year_range sel = None
      then (Inr None, h)
      else case year_range sel of
        None \<Rightarrow> (Inr None, h)
      | Some (yr_min, yr_max) \<Rightarrow>
         (case row_mask (h ! stumpage) (selected_types sel) yr_min yr_max (selected_quarters sel) of
            Inl e \<Rightarrow> (Inl e, h)
          | Inr m \<Rightarrow>
             (let (a, h1) = alloc (getmask (h ! stumpage) m) h;
                  (data, h2) = alloc (h1 ! a) h1
              in if ''Time'' \<in> set (columns (h2 ! data))
                 then (case retype_time (h2 ! data) of
                         Inl e \<Rightarrow> (Inl e, h2)
                       | Inr d \<Rightarrow> (Inr (Some data), h2[data := d]))
                 else (Inr (Some data), h2))))"

section \<open>Loading the table\<close>

text \<open>
  \<open>load_stumpage\<close> runs the download and the parsing inside \<open>try\<close>: \<open>fetched\<close> is what that
  block gives, the parsed table or the exception raised in it. Every exception is caught,
  shown as a banner, and answered with the empty table. The file imports neither
  \<open>requests\<close> nor \<open>io\<close>, which the block names: run as it stands, the block ends in a
  NameError, which is caught like any other.
\<close>

datatype failure = HTTPError | ConnectionError | ParserError | NameError string

definition load_stumpage :: "failure + frame \<Rightarrow> frame \<times> failure option" where
  "load_stumpage fetched =
     (case fetched of Inr df \<Rightarrow> (df, None) | Inl e \<Rightarrow> (DataFrame, Some e))"

text \<open>
  \<open>pd.to_numeric(col, errors="coerce")\<close>: a number stays, a string becomes the number that
  \<open>parse\<close> reads in it or the missing value. The parser is the library's and is a parameter.
\<close>

definition to_numeric :: "(string \<Rightarrow> real option) \<Rightarrow> cell list \<Rightarrow> cell list" where
  "to_numeric parse col =
     map (\<lambda>c. case c of Str s \<Rightarrow> (case parse s of Some y \<Rightarrow> Num y | None \<Rightarrow> NaN)
                | Num y \<Rightarrow> Num y
                | NaN \<Rightarrow> NaN) col"

definition type_order :: "string list" where
  "type_order =
     [''Pine Sawtimber'', ''Mixed Hardwood Sawtimber'', ''Pine Chip-n-Saw'',
      ''Pine Pulpwood'', ''Hardwood Pulpwood'']"

text \<open>
  The two assignments after the load: \<open>Year\<close> made numeric, \<open>Type\<close> made categorical with
  the categories \<open>type_order\<close>.
\<close>

definition prepare :: "(string \<Rightarrow> real option) \<Rightarrow> frame \<Rightarrow> error + frame" where
  "prepare parse stumpage =
     and_then (getcol stumpage ''Year'') (\<lambda>yr.
     and_then (setcol stumpage ''Year'' (to_numeric parse yr) None) (\<lambda>s1.
     and_then (getcol s1 ''Type'') (\<lambda>ty.
     and_then (Categorical ty (map Str type_order)) (\<lambda>col.
       setcol s1 ''Type'' col (Some (map Str type_order))))))"

text \<open>
  \<open>col.min()\<close> and \<open>col.max()\<close> skip the missing values and are missing when nothing is
  left; \<open>int\<close> truncates towards zero and raises on the missing value.
\<close>

definition col_min :: "cell list \<Rightarrow> error + cell" where
  "col_min col =
     (if list_ex is_Str col then Inl TypeError
      else case map num_of (filter is_Num col) of
             [] \<Rightarrow> Inr NaN
           | y # ys \<Rightarrow> Inr (Num (fold min ys y)))"

definition col_max :: "cell list \<Rightarrow> error + cell" where
  "col_max col =
     (if list_ex is_Str col then Inl TypeError
      else case map num_of (filter is_Num col) of
             [] \<Rightarrow> Inr NaN
           | y # ys \<Rightarrow> Inr (Num (fold max ys y)))"

definition py_int :: "cell \<Rightarrow> error + int" where
  "py_int c =
     (case c of Num y \<Rightarrow> Inr (if 0 \<le> y then \<lfloor>y\<rfloor> else \<lceil>y\<rceil>)
      | NaN \<Rightarrow> Inl ValueError
      | Str s \<Rightarrow> Inl ValueError)"

definition year_span :: "frame \<Rightarrow> error + int \<times> int" where
  "year_span stumpage =
     and_then (getcol stumpage ''Year'') (\<lambda>yr.
     and_then (col_min yr) (\<lambda>lo.
     and_then (py_int lo) (\<lambda>min_year.
     and_then (col_max yr) (\<lambda>hi.
     and_then (py_int hi) (\<lambda>max_year.
       Inr (min_year, max_year))))))"

text \<open>
  The start of a run, up to the bounds of the year slider: the table as the rest of the
  script reads it, and the observed span of years. \<open>Inl\<close> is an exception that nothing
  catches: the run ends there.
\<close>

definition startup ::
  "(string \<Rightarrow> real option) \<Rightarrow> failure + frame \<Rightarrow> error + frame \<times> int \<times> int" where
  "startup parse fetched =
     and_then (prepare parse (fst (load_stumpage fetched))) (\<lambda>stumpage.
     and_then (year_span stumpage) (\<lambda>(min_year, max_year).
       Inr (stumpage, min_year, max_year)))"

section \<open>The controls\<close>

text \<open>
  What the widgets return in one run, and the three keys of the session state that the
  script writes and reads back. No widget is given a key, so the session state holds
  nothing but what "Clear All" stored, in this run or in an earlier one.
\<close>

record widgets =
  radio :: string
  types_widget :: "string list"
  quarters_widget :: "string list"
  slider :: "int \<times> int"
  clear_all :: bool

record session_state =
  ss_selected_types :: "string list option"
  ss_selected_quarters :: "string list option"
  ss_year_range :: "(int \<times> int) option"

definition session_get :: "'a option \<Rightarrow> 'a \<Rightarrow> 'a" where
  "session_get stored dflt = (case stored of Some v \<Rightarrow> v | None \<Rightarrow> dflt)"

definition controls ::
  "int \<Rightarrow> int \<Rightarrow> widgets \<Rightarrow> session_state \<Rightarrow> selection \<times> session_state" where
  "controls min_year max_year w ss =
     (let ss' = (if clear_all w
                 then \<lparr>ss_selected_types = Some [], ss_selected_quarters = Some [],
                       ss_year_range = Some (min_year, max_year)\<rparr>
                 else ss)
      in (\<lparr>price_selector = radio w,
           selected_types = session_get (ss_selected_types ss') (types_widget w),
           selected_quarters = session_get (ss_selected_quarters ss') (quarters_widget w),
           year_range = Some (session_get (ss_year_range ss') (slider w))\<rparr>, ss'))"

text \<open>A freshly loaded session: every widget at its default, nothing stored, no click.\<close>

definition fresh_widgets :: "int \<Rightarrow> int \<Rightarrow> widgets" where
  "fresh_widgets min_year max_year =
     \<lparr>radio = ''Average'', types_widget = [], quarters_widget = [],
      slider = (min_year, max_year), clear_all = False\<rparr>"

definition fresh_session :: session_state where
  "fresh_session =
     \<lparr>ss_selected_types = None, ss_selected_quarters = None, ss_year_range = None\<rparr>"

section \<open>The chart\<close>

record trace =
  tr_name :: cell
  tr_x :: "cell list"
  tr_y :: "cell list"
  tr_symbol :: string

datatype display =
    Message
  | ColumnNotFound string
  | Figure "trace list" "cell list option"

definition symbol_map :: "(string \<times> string) list" where
  "symbol_map =
     [(''Pine Sawtimber'', ''circle''), (''Mixed Hardwood Sawtimber'', ''square''),
      (''Pine Chip-n-Saw'', ''diamond''), (''Pine Pulpwood'', ''triangle-up''),
      (''Hardwood Pulpwood'', ''triangle-down'')]"

definition symbol_get :: "cell \<Rightarrow> string" where
  "symbol_get t =
     (case t of Str s \<Rightarrow> (case map_of symbol_map s of Some m \<Rightarrow> m | None \<Rightarrow> ''circle'')
      | _ \<Rightarrow> ''circle'')"

text \<open>
  The position of a value among the categories of its column; the missing value (and a
  value that is no category) sorts last.
\<close>

definition cat_code :: "cell list \<Rightarrow> cell \<Rightarrow> nat" where
  "cat_code cats v = length (takeWhile (\<lambda>c. c \<noteq> v) cats)"

text \<open>
  \<open>f.sort_values(c)\<close>: a categorical column sorts by the position of its values among the
  categories, a plain column by its values with the missing ones last. The library does
  not fix the order of rows with equal keys; the model keeps them in the order of the
  table.
\<close>

definition sort_values :: "frame \<Rightarrow> string \<Rightarrow> error + frame" where
  "sort_values f c =
     (if c \<notin> set (columns f) then Inl (KeyError c)
      else case categories f c of
        Some cats \<Rightarrow> Inr (f\<lparr>rows := sort_key (\<lambda>r. cat_code cats (r c)) (rows f)\<rparr>)
      | None \<Rightarrow>
         (let strs = filter (\<lambda>r. is_Str (r c)) (rows f);
              nums = filter (\<lambda>r. is_Num (r c)) (rows f);
              nans = filter (\<lambda>r. r c = NaN) (rows f)
          in if strs \<noteq> [] \<and> nums \<noteq> [] then Inl TypeError
             else Inr (f\<lparr>rows := sort_key (\<lambda>r. str_of (r c)) strs
                                  @ sort_key (\<lambda>r. num_of (r c)) nums @ nans\<rparr>)))"

text \<open>\<open>data[data["Type"] == t].sort_values("Time")\<close>: the rows of one type, by time.\<close>

definition group :: "frame \<Rightarrow> cell \<Rightarrow> error + frame" where
  "group data t =
     and_then (getcol data ''Type'') (\<lambda>ty.
       sort_values (getmask data (map (\<lambda>c. c = t) ty)) ''Time'')"

text \<open>The loop over the categories of \<open>Type\<close>: one trace for each type that has a row.\<close>

fun plot_loop :: "frame \<Rightarrow> string \<Rightarrow> cell list \<Rightarrow> error + trace list" where
  "plot_loop data price [] = Inr []"
| "plot_loop data price (t # ts) =
     and_then (getcol data ''Type'') (\<lambda>ty.
       if t \<notin> set ty then plot_loop data price ts
       else
         and_then (group data t) (\<lambda>df_t.
         and_then (getcol df_t ''Time'') (\<lambda>xs.
         and_then (getcol df_t price) (\<lambda>ys.
         and_then (plot_loop data price ts) (\<lambda>fig.
           Inr (\<lparr>tr_name = t, tr_x = xs, tr_y = ys, tr_symbol = symbol_get t\<rparr> # fig))))))"

text \<open>\<open>cats[::4]\<close>: every fourth element, from the first.\<close>

fun every4 :: "'a list \<Rightarrow> 'a list" where
  "every4 [] = []"
| "every4 (c # cs) = c # every4 (drop 3 cs)"

definition tickvals :: "frame \<Rightarrow> error + cell list option" where
  "tickvals data =
     (if ''Time'' \<in> set (columns data)
      then (case categories data ''Time'' of
              None \<Rightarrow> Inl AttributeError
            | Some cats \<Rightarrow> Inr (Some (every4 cats)))
      else Inr None)"

text \<open>
  The branch that draws: the check of the price column, then the traces and the ticks.
\<close>

definition render_chart :: "frame \<Rightarrow> string \<Rightarrow> error + display" where
  "render_chart data price_column_name =
     (if price_column_name \<notin> set (columns data) then Inr (ColumnNotFound price_column_name)
      else
        and_then (getcol data ''Type'') (\<lambda>ty.
        case categories data ''Type'' of
          None \<Rightarrow> Inl AttributeError
        | Some cats \<Rightarrow>
            and_then (plot_loop data price_column_name cats) (\<lambda>fig.
            and_then (tickvals data) (\<lambda>tv.
              Inr (Figure fig tv)))))"

text \<open>Plot or message: the message when there is no table or no row, the chart otherwise.\<close>

definition plot_or_message :: "nat option \<Rightarrow> frame list \<Rightarrow> string \<Rightarrow> error + display" where
  "plot_or_message data h price =
     (case data of
        None \<Rightarrow> Inr Message
      | Some a \<Rightarrow> if rows (h ! a) = [] then Inr Message else render_chart (h ! a) price)"

text \<open>The download button is shown under the same condition as the chart branch.\<close>

definition download_offered :: "nat option \<Rightarrow> frame list \<Rightarrow> bool" where
  "download_offered data h = (case data of None \<Rightarrow> False | Some a \<Rightarrow> rows (h ! a) \<noteq> [])"

text \<open>One run from the selection on: the filtering, then the plot or the message.\<close>

definition show_selection :: "selection \<Rightarrow> nat \<Rightarrow> frame list \<Rightarrow> error + display" where
  "show_selection sel stumpage h =
     (case get_filtered_data sel stumpage h of
        (Inl e, h') \<Rightarrow> Inl e
      | (Inr data, h') \<Rightarrow> plot_or_message data h' (price_selector sel))"

section \<open>Orders on time labels\<close>

text \<open>
  The order in which \<open>sorted\<close> puts two cells: strings by string order, numbers by value.
\<close>

definition cell_le :: "cell \<Rightarrow> cell \<Rightarrow> bool" where
  "cell_le a b =
     (case (a, b) of (Str s, Str t) \<Rightarrow> s \<le> t | (Num u, Num v) \<Rightarrow> u \<le> v | _ \<Rightarrow> False)"

text \<open>
  The chronological order of two rows: by \<open>Year\<close>, then by \<open>Quarter\<close> (the quarters
  \<open>Q1\<close> to \<open>Q4\<close> are in string order). A list of rows is chronological when no row comes
  before a row of an earlier period.
\<close>

definition period_le :: "(string \<Rightarrow> cell) \<Rightarrow> (string \<Rightarrow> cell) \<Rightarrow> bool" where
  "period_le r r' =
     (num_of (r ''Year'') < num_of (r' ''Year'') \<or>
      (num_of (r ''Year'') = num_of (r' ''Year'') \<and>
       str_of (r ''Quarter'') \<le> str_of (r' ''Quarter'')))"

definition chronological :: "(string \<Rightarrow> cell) list \<Rightarrow> bool" where
  "chronological rs = sorted_wrt period_le rs"

section \<open>The filter, row by row\<close>

text \<open>The test that the mask of \<open>get_filtered_data\<close> makes on one row.\<close>

definition row_selected ::
  "string list \<Rightarrow> int \<Rightarrow> int \<Rightarrow> string list \<Rightarrow> (string \<Rightarrow> cell) \<Rightarrow> bool" where
  "row_selected types yr_min yr_max quarters r =
     ((case r ''Type'' of Str s \<Rightarrow> s \<in> set types | _ \<Rightarrow> False) \<and>
      (case r ''Year'' of Num y \<Rightarrow> real_of_int yr_min \<le> y \<and> y \<le> real_of_int yr_max | _ \<Rightarrow> False) \<and>
      (case r ''Quarter'' of Str s \<Rightarrow> s \<in> set quarters | _ \<Rightarrow> False))"

text \<open>
  A table on which \<open>get_filtered_data\<close> raises nothing: the three columns of the mask are
  there, \<open>Year\<close> holds no string, and the time labels, if the column is there, are strings.
\<close>

definition filterable :: "frame \<Rightarrow> bool" where
  "filterable f =
     (''Type'' \<in> set (columns f) \<and> ''Year'' \<in> set (columns f) \<and> ''Quarter'' \<in> set (columns f) \<and>
      \<not> list_ex (\<lambda>r. is_Str (r ''Year'')) (rows f) \<and>
      (''Time'' \<in> set (columns f) \<longrightarrow> list_all (\<lambda>r. is_Str (r ''Time'')) (rows f)))"

text \<open>The table that \<open>get_filtered_data\<close> returns on a filterable table.\<close>

definition filtered :: "frame \<Rightarrow> string list \<Rightarrow> int \<Rightarrow> int \<Rightarrow> string list \<Rightarrow> frame" where
  "filtered f types yr_min yr_max quarters =
     (let rs = filter (row_selected types yr_min yr_max quarters) (rows f)
      in f\<lparr>rows := rs,
           categories :=
             (if ''Time'' \<in> set (columns f)
              then (categories f)
                     (''Time'' := Some (sort_key str_of (unique (map (\<lambda>r. r ''Time'') rs))))
              else categories f)\<rparr>)"

section \<open>Sample tables\<close>

definition schema :: "string list" where
  "schema = [''Type'', ''Time'', ''Year'', ''Quarter'', ''Minimum'', ''Average'', ''Maximum'']"

definition mk_row ::
  "string \<Rightarrow> string \<Rightarrow> real \<Rightarrow> string \<Rightarrow> real \<Rightarrow> real \<Rightarrow> real \<Rightarrow> string \<Rightarrow> cell" where
  "mk_row ty tm yr qu mn av mx =
     (\<lambda>c. NaN)(''Type'' := Str ty, ''Time'' := Str tm, ''Year'' := Num yr, ''Quarter'' := Str qu,
               ''Minimum'' := Num mn, ''Average'' := Num av, ''Maximum'' := Num mx)"

text \<open>A table as \<open>prepare\<close> leaves it: the seven columns, \<open>Type\<close> categorical.\<close>

definition table :: "(string \<Rightarrow> cell) list \<Rightarrow> frame" where
  "table rs =
     \<lparr>columns = schema,
      categories = (\<lambda>c. None)(''Type'' := Some (map Str type_order)),
      rows = rs\<rparr>"

definition sample_rows :: "(string \<Rightarrow> cell) list" where
  "sample_rows =
     [mk_row ''Pine Sawtimber'' ''2019-Q1'' 2019 ''Q1'' 20 25 30,
      mk_row ''Pine Pulpwood'' ''2018-Q2'' 2018 ''Q2'' 5 7 9,
      mk_row ''Pine Sawtimber'' ''2018-Q2'' 2018 ''Q2'' 21 24 28,
      mk_row ''Pine Sawtimber'' ''2017-Q1'' 2017 ''Q1'' 19 23 27,
      mk_row ''Pine Sawtimber'' ''2018-Q3'' 2018 ''Q3'' 22 26 29]"

definition sample_selection :: selection where
  "sample_selection =
     \<lparr>price_selector = ''Minimum'', selected_types = [''Pine Sawtimber''],
      selected_quarters = [''Q1'', ''Q2''], year_range = Some (2018, 2020)\<rparr>"

text \<open>Two quarters on either side of the year 1000: the labels differ in length.\<close>

definition millennium_rows :: "(string \<Rightarrow> cell) list" where
  "millennium_rows =
     [mk_row ''Pine Sawtimber'' ''999-Q4'' 999 ''Q4'' 30 31 32,
      mk_row ''Pine Sawtimber'' ''1000-Q1'' 1000 ''Q1'' 33 34 35]"

definition millennium_selection :: selection where
  "millennium_selection =
     \<lparr>price_selector = ''Average'', selected_types = [''Pine Sawtimber''],
      selected_quarters = [''Q1'', ''Q4''], year_range = Some (999, 1000)\<rparr>"

text \<open>Six quarters of two types, the rows in no particular order.\<close>

definition quarterly_rows :: "(string \<Rightarrow> cell) list" where
  "quarterly_rows =
     [mk_row ''Pine Pulpwood'' ''2019-Q1'' 2019 ''Q1'' 6 8 10,
      mk_row ''Pine Sawtimber'' ''2018-Q3'' 2018 ''Q3'' 22 26 29,
      mk_row ''Pine Sawtimber'' ''2018-Q1'' 2018 ''Q1'' 20 25 30,
      mk_row ''Pine Pulpwood'' ''2018-Q2'' 2018 ''Q2'' 5 7 9,
      mk_row ''Pine Sawtimber'' ''2019-Q2'' 2019 ''Q2'' 23 27 31,
      mk_row ''Pine Sawtimber'' ''2018-Q4'' 2018 ''Q4'' 21 24 28]"

definition quarterly_selection :: selection where
  "quarterly_selection =
     \<lparr>price_selector = ''Average'', selected_types = [''Pine Pulpwood'', ''Pine Sawtimber''],
      selected_quarters = [''Q1'', ''Q2'', ''Q3'', ''Q4''], year_range = Some (2018, 2019)\<rparr>"

text \<open>
  What the run on the six quarters gives: the table that \<open>get_filtered_data\<close> returns,
  and the traces drawn from it.
\<close>

definition quarterly_view :: frame where
  "quarterly_view =
     (table quarterly_rows)\<lparr>categories := (categories (table quarterly_rows))
        (''Time'' := Some [Str ''2018-Q1'', Str ''2018-Q2'', Str ''2018-Q3'', Str ''2018-Q4'',
                          Str ''2019-Q1'', Str ''2019-Q2''])\<rparr>"

definition quarterly_traces :: "trace list" where
  "quarterly_traces =
     [\<lparr>tr_name = Str ''Pine Sawtimber'',
       tr_x = [Str ''2018-Q1'', Str ''2018-Q3'', Str ''2018-Q4'', Str ''2019-Q2''],
       tr_y = [Num 25, Num 26, Num 24, Num 27], tr_symbol = ''circle''\<rparr>,
      \<lparr>tr_name = Str ''Pine Pulpwood'',
       tr_x = [Str ''2018-Q2'', Str ''2019-Q1''],
       tr_y = [Num 7, Num 8], tr_symbol = ''triangle-up''\<rparr>]"

text \<open>The same for the two quarters around the year 1000.\<close>

definition millennium_view :: frame where
  "millennium_view =
     (table millennium_rows)\<lparr>categories := (categories (table millennium_rows))
        (''Time'' := Some [Str ''1000-Q1'', Str ''999-Q4''])\<rparr>"

section \<open>Reading the filter row by row\<close>

lemma and_then_Inr: "and_then m k = Inr y \<longleftrightarrow> (\<exists>x. m = Inr x \<and> k x = Inr y)"
  by (cases m) (simp_all add: and_then_def)

lemma getcol_Inr: "getcol f c = Inr col \<longleftrightarrow> c \<in> set (columns f) \<and> col = map (\<lambda>r. r c) (rows f)"
  by (auto simp: getcol_def)

lemma mask_and_map: "mask_and (map p xs) (map q xs) = map (\<lambda>x. p x \<and> q x) xs"
  by (induction xs) (simp_all add: mask_and_def)

lemma getmask_map: "rows (getmask f (map p (rows f))) = filter p (rows f)"
proof -
  have "map fst (filter snd (zip xs (map p xs))) = filter p xs" for xs :: "(string \<Rightarrow> cell) list"
    by (induction xs) simp_all
  then show ?thesis by (simp add: getmask_def)
qed

lemma isin_map: "isin (map g xs) vals = map (\<lambda>x. case g x of Str s \<Rightarrow> s \<in> set vals | _ \<Rightarrow> False) xs"
  by (simp add: isin_def)

lemma col_ge_Inr: "col_ge (map g xs) n = Inr m \<Longrightarrow>
   m = map (\<lambda>x. case g x of Num y \<Rightarrow> real_of_int n \<le> y | _ \<Rightarrow> False) xs"
  by (auto simp: col_ge_def split: if_splits)

lemma col_le_Inr: "col_le (map g xs) n = Inr m \<Longrightarrow>
   m = map (\<lambda>x. case g x of Num y \<Rightarrow> y \<le> real_of_int n | _ \<Rightarrow> False) xs"
  by (auto simp: col_le_def split: if_splits)

lemma row_mask_Inr:
  assumes "row_mask f types yr_min yr_max quarters = Inr m"
  shows "m = map (row_selected types yr_min yr_max quarters) (rows f)"
proof -
  from assms obtain ge le where
    ge: "col_ge (map (\<lambda>r. r ''Year'') (rows f)) yr_min = Inr ge" and
    le: "col_le (map (\<lambda>r. r ''Year'') (rows f)) yr_max = Inr le" and
    m: "m = mask_and (mask_and (mask_and (isin (map (\<lambda>r. r ''Type'') (rows f)) types) ge) le)
              (isin (map (\<lambda>r. r ''Quarter'') (rows f)) quarters)"
    by (auto simp: row_mask_def and_then_Inr getcol_Inr)
  show ?thesis
    unfolding m col_ge_Inr [OF ge] col_le_Inr [OF le] isin_map mask_and_map
    by (auto simp: row_selected_def split: cell.splits)
qed

lemma set_unique: "set (unique c) = set c"
  by (simp add: unique_def)

lemma distinct_unique: "distinct (unique c)"
  by (simp add: unique_def)

lemma sorted_py_set: "sorted_py cs = Inr ss \<Longrightarrow> set ss = set cs"
  by (auto simp: sorted_py_def list_ex_iff list_all_iff is_Str_def is_Num_def split: if_splits cell.splits)

lemma Categorical_same:
  "set vals \<subseteq> set cats \<Longrightarrow> Categorical vals cats = Inr v \<Longrightarrow> v = vals"
  by (auto simp: Categorical_def split: if_splits intro!: map_idI)

lemma setcol_same:
  "setcol d c (map (\<lambda>r. r c) (rows d)) cats = Inr d' \<Longrightarrow> c \<in> set (columns d) \<Longrightarrow>
   d' = d\<lparr>categories := (categories d)(c := cats)\<rparr>"
proof -
  have "map (\<lambda>(r, v). r(c := v)) (zip xs (map (\<lambda>r. r c) xs)) = xs" for xs :: "(string \<Rightarrow> cell) list"
    by (induction xs) (auto simp: fun_eq_iff)
  then show "setcol d c (map (\<lambda>r. r c) (rows d)) cats = Inr d' \<Longrightarrow> c \<in> set (columns d) \<Longrightarrow> ?thesis"
    by (auto simp: setcol_def)
qed

lemma Categorical_Inr:
  "Categorical vals cats = Inr v \<Longrightarrow> NaN \<notin> set cats \<and> distinct cats"
  by (auto simp: Categorical_def split: if_splits)

lemma retype_time_Inr:
  assumes "retype_time d = Inr d'"
  shows "\<exists>cats. sorted_py (unique (map (\<lambda>r. r ''Time'') (rows d))) = Inr cats \<and>
           NaN \<notin> set cats \<and> distinct cats \<and>
           d' = d\<lparr>categories := (categories d)(''Time'' := Some cats)\<rparr>"
proof -
  let ?tm = "map (\<lambda>r. r ''Time'') (rows d)"
  from assms obtain cats col where
    c: "''Time'' \<in> set (columns d)" and s: "sorted_py (unique ?tm) = Inr cats" and
    k: "Categorical ?tm cats = Inr col" and u: "setcol d ''Time'' col (Some cats) = Inr d'"
    by (auto simp: retype_time_def and_then_Inr getcol_Inr)
  have "set ?tm \<subseteq> set cats" using sorted_py_set [OF s] by (simp add: set_unique)
  then have "col = ?tm" using k by (rule Categorical_same)
  with u c s Categorical_Inr [OF k] show ?thesis using setcol_same by blast
qed

lemma get_filtered_data_unfold:
  assumes "selected_types sel \<noteq> []" "selected_quarters sel \<noteq> []"
    "year_range sel = Some (yr_min, yr_max)"
  shows "get_filtered_data sel p h =
     (case row_mask (h ! p) (selected_types sel) yr_min yr_max (selected_quarters sel) of
        Inl e \<Rightarrow> (Inl e, h)
      | Inr m \<Rightarrow>
         (let g = getmask (h ! p) m
          in if ''Time'' \<in> set (columns g)
             then (case retype_time g of
                     Inl e \<Rightarrow> (Inl e, h @ [g, g])
                   | Inr d \<Rightarrow> (Inr (Some (Suc (length h))), h @ [g, d]))
             else (Inr (Some (Suc (length h))), h @ [g, g])))"
  using assms
  by (simp add: get_filtered_data_def alloc_def Let_def nth_append list_update_append
      split: sum.splits)

lemma get_filtered_data_Some:
  assumes "get_filtered_data sel p h = (Inr (Some a), h')"
  shows "\<exists>yr_min yr_max g d.
           year_range sel = Some (yr_min, yr_max) \<and>
           selected_types sel \<noteq> [] \<and> selected_quarters sel \<noteq> [] \<and>
           a = Suc (length h) \<and> h' = h @ [g, d] \<and>
           columns d = columns (h ! p) \<and>
           rows d = filter (row_selected (selected_types sel) yr_min yr_max (selected_quarters sel))
                      (rows (h ! p)) \<and>
           (if ''Time'' \<in> set (columns d)
            then \<exists>cats. sorted_py (unique (map (\<lambda>r. r ''Time'') (rows d))) = Inr cats \<and>
                   NaN \<notin> set cats \<and> distinct cats \<and>
                   categories d = (categories (h ! p))(''Time'' := Some cats)
            else categories d = categories (h ! p))"
proof -
  from assms have t: "selected_types sel \<noteq> []" and q: "selected_quarters sel \<noteq> []"
    by (auto simp: get_filtered_data_def split: if_splits)
  from assms obtain yr_min yr_max where y: "year_range sel = Some (yr_min, yr_max)"
    by (cases "year_range sel") (auto simp: get_filtered_data_def)
  let ?sel = "row_selected (selected_types sel) yr_min yr_max (selected_quarters sel)"
  from assms obtain m where
    m: "row_mask (h ! p) (selected_types sel) yr_min yr_max (selected_quarters sel) = Inr m"
    unfolding get_filtered_data_unfold [OF t q y] by (auto split: sum.splits)
  define g where "g = getmask (h ! p) m"
  have grows: "rows g = filter ?sel (rows (h ! p))"
    unfolding g_def row_mask_Inr [OF m] by (rule getmask_map)
  have gcols: "columns g = columns (h ! p)" and gcats: "categories g = categories (h ! p)"
    by (simp_all add: g_def getmask_def)
  show ?thesis
  proof (cases "''Time'' \<in> set (columns g)")
    case False
    with assms have "a = Suc (length h)" "h' = h @ [g, g]"
      unfolding get_filtered_data_unfold [OF t q y] m g_def by (simp_all add: Let_def)
    with False t q y grows gcols gcats show ?thesis by auto
  next
    case True
    with assms obtain d where d: "retype_time g = Inr d" and
      a: "a = Suc (length h)" and h': "h' = h @ [g, d]"
      unfolding get_filtered_data_unfold [OF t q y] m g_def
      by (auto simp: Let_def split: sum.splits)
    from retype_time_Inr [OF d] obtain cats where
      "sorted_py (unique (map (\<lambda>r. r ''Time'') (rows g))) = Inr cats"
      "NaN \<notin> set cats" "distinct cats"
      "d = g\<lparr>categories := (categories g)(''Time'' := Some cats)\<rparr>" by blast
    with True a h' t q y grows gcols gcats show ?thesis by auto
  qed
qed

lemma row_selectedD:
  assumes "row_selected types yr_min yr_max quarters r"
  shows "(\<exists>s. r ''Type'' = Str s \<and> s \<in> set types) \<and>
         (\<exists>q. r ''Quarter'' = Str q \<and> q \<in> set quarters) \<and>
         (\<exists>y. r ''Year'' = Num y \<and> real_of_int yr_min \<le> y \<and> y \<le> real_of_int yr_max)"
  using assms by (auto simp: row_selected_def split: cell.splits)

lemma get_filtered_data_extends: "\<exists>new. snd (get_filtered_data sel p h) = h @ new"
proof (cases "selected_types sel = [] \<or> selected_quarters sel = [] \<or> year_range sel = None")
  case True
  then show ?thesis by (simp add: get_filtered_data_def)
next
  case False
  then obtain yr_min yr_max where "selected_types sel \<noteq> []" "selected_quarters sel \<noteq> []"
    "year_range sel = Some (yr_min, yr_max)" by auto
  then show ?thesis
    unfolding get_filtered_data_unfold [of sel yr_min yr_max p h]
    by (simp add: get_filtered_data_unfold Let_def split: sum.splits)
qed

lemma row_mask_filterable:
  assumes "filterable f"
  shows "row_mask f types yr_min yr_max quarters
         = Inr (map (row_selected types yr_min yr_max quarters) (rows f))"
proof -
  from assms have c: "''Type'' \<in> set (columns f)" "''Year'' \<in> set (columns f)"
    "''Quarter'' \<in> set (columns f)" and
    n: "\<not> list_ex is_Str (map (\<lambda>r. r ''Year'') (rows f))"
    by (simp_all add: filterable_def list_ex_iff)
  from n obtain m where m: "row_mask f types yr_min yr_max quarters = Inr m"
    using c by (simp add: row_mask_def and_then_def getcol_def col_ge_def col_le_def)
  show ?thesis using row_mask_Inr [OF m] m by simp
qed

lemma sorted_py_strings: "list_all is_Str cs \<Longrightarrow> sorted_py cs = Inr (sort_key str_of cs)"
  by (simp add: sorted_py_def)

lemma Categorical_strings:
  assumes "list_all is_Str vals"
  shows "Categorical vals (sort_key str_of (unique vals)) = Inr vals"
proof -
  have "NaN \<notin> set vals" using assms by (auto simp: list_all_iff is_Str_def)
  then show ?thesis
    by (auto simp: Categorical_def set_unique distinct_unique intro!: map_idI)
qed

lemma retype_time_strings:
  assumes "''Time'' \<in> set (columns g)" "list_all (\<lambda>r. is_Str (r ''Time'')) (rows g)"
  shows "retype_time g = Inr (g\<lparr>categories :=
           (categories g)(''Time'' := Some (sort_key str_of (unique (map (\<lambda>r. r ''Time'') (rows g)))))\<rparr>)"
proof -
  let ?tm = "map (\<lambda>r. r ''Time'') (rows g)"
  let ?cats = "sort_key str_of (unique ?tm)"
  have a: "list_all is_Str ?tm" using assms(2) by (simp add: list_all_iff)
  then have b: "list_all is_Str (unique ?tm)" by (simp add: list_all_iff set_unique)
  have "retype_time g = setcol g ''Time'' ?tm (Some ?cats)"
    using assms(1) sorted_py_strings [OF b] Categorical_strings [OF a]
    by (simp add: retype_time_def and_then_def getcol_def)
  moreover obtain d where "setcol g ''Time'' ?tm (Some ?cats) = Inr d"
    by (simp add: setcol_def)
  ultimately show ?thesis using setcol_same assms(1) by metis
qed

lemma get_filtered_data_filterable:
  assumes "selected_types sel \<noteq> []" "selected_quarters sel \<noteq> []"
    "year_range sel = Some (yr_min, yr_max)" "filterable (h ! p)"
  shows "get_filtered_data sel p h =
     (Inr (Some (Suc (length h))),
      h @ [(h ! p)\<lparr>rows := filter (row_selected (selected_types sel) yr_min yr_max
                                   (selected_quarters sel)) (rows (h ! p))\<rparr>,
           filtered (h ! p) (selected_types sel) yr_min yr_max (selected_quarters sel)])"
proof -
  let ?rs = "filter (row_selected (selected_types sel) yr_min yr_max (selected_quarters sel))
               (rows (h ! p))"
  let ?g = "(h ! p)\<lparr>rows := ?rs\<rparr>"
  have g: "getmask (h ! p) (map (row_selected (selected_types sel) yr_min yr_max
             (selected_quarters sel)) (rows (h ! p))) = ?g"
    using getmask_map [of "h ! p"] by (simp add: getmask_def)
  show ?thesis
  proof (cases "''Time'' \<in> set (columns (h ! p))")
    case False
    then show ?thesis
      unfolding get_filtered_data_unfold [OF assms(1-3)] row_mask_filterable [OF assms(4)]
      by (simp add: g filtered_def Let_def)
  next
    case True
    with assms(4) have "list_all (\<lambda>r. is_Str (r ''Time'')) (rows ?g)"
      by (simp add: filterable_def list_all_iff)
    moreover from True have "''Time'' \<in> set (columns ?g)" by simp
    ultimately have "retype_time ?g = Inr (?g\<lparr>categories :=
           (categories ?g)(''Time'' := Some (sort_key str_of (unique (map (\<lambda>r. r ''Time'') (rows ?g)))))\<rparr>)"
      by (rule retype_time_strings [rotated])
    with True show ?thesis
      unfolding get_filtered_data_unfold [OF assms(1-3)] row_mask_filterable [OF assms(4)]
      by (simp add: g filtered_def Let_def)
  qed
qed


lemma rows_filtered:
  "rows (filtered f types yr_min yr_max quarters)
   = filter (row_selected types yr_min yr_max quarters) (rows f)"
  by (simp add: filtered_def Let_def)

lemma columns_filtered: "columns (filtered f types yr_min yr_max quarters) = columns f"
  by (simp add: filtered_def Let_def)

lemma categories_filtered:
  "categories (filtered f types yr_min yr_max quarters) =
     (if ''Time'' \<in> set (columns f)
      then (categories f)(''Time'' := Some (sort_key str_of (unique (map (\<lambda>r. r ''Time'')
              (filter (row_selected types yr_min yr_max quarters) (rows f))))))
      else categories f)"
  by (simp add: filtered_def Let_def)

lemma filterable_sample: "filterable (table sample_rows)"
  by (simp add: filterable_def table_def schema_def sample_rows_def mk_row_def is_Str_def)

lemma sample_run:
  "get_filtered_data sample_selection 0 [table sample_rows] =
     (Inr (Some 2),
      [table sample_rows,
       (table sample_rows)\<lparr>rows := filter (row_selected [''Pine Sawtimber''] 2018 2020 [''Q1'', ''Q2'']) sample_rows\<rparr>,
       filtered (table sample_rows) [''Pine Sawtimber''] 2018 2020 [''Q1'', ''Q2'']])"
  using get_filtered_data_filterable [of sample_selection 2018 2020 "[table sample_rows]" 0]
    filterable_sample
  by (simp add: sample_selection_def table_def)

lemma sample_filtered_rows:
  "rows (filtered (table sample_rows) [''Pine Sawtimber''] 2018 2020 [''Q1'', ''Q2''])
   = [mk_row ''Pine Sawtimber'' ''2019-Q1'' 2019 ''Q1'' 20 25 30,
      mk_row ''Pine Sawtimber'' ''2018-Q2'' 2018 ''Q2'' 21 24 28]"
  by (simp add: rows_filtered table_def sample_rows_def row_selected_def mk_row_def)

section \<open>The order of the time labels\<close>

lemma cell_le_strings:
  "list_all is_Str cs \<Longrightarrow> sorted (map str_of cs) \<Longrightarrow> sorted_wrt cell_le cs"
proof -
  assume a: "list_all is_Str cs" and s: "sorted (map str_of cs)"
  have "sorted_wrt (\<lambda>a b. str_of a \<le> str_of b) cs" using s by (simp add: sorted_wrt_map)
  then show ?thesis
  proof (rule sorted_wrt_mono_rel [rotated])
    fix a b assume "a \<in> set cs" "b \<in> set cs" "str_of a \<le> str_of b"
    with a show "cell_le a b"
      by (auto simp: list_all_iff is_Str_def cell_le_def str_of_def split: cell.splits)
  qed
qed

lemma cell_le_numbers:
  "list_all is_Num cs \<Longrightarrow> sorted (map num_of cs) \<Longrightarrow> sorted_wrt cell_le cs"
proof -
  assume a: "list_all is_Num cs" and s: "sorted (map num_of cs)"
  have "sorted_wrt (\<lambda>a b. num_of a \<le> num_of b) cs" using s by (simp add: sorted_wrt_map)
  then show ?thesis
  proof (rule sorted_wrt_mono_rel [rotated])
    fix a b assume "a \<in> set cs" "b \<in> set cs" "num_of a \<le> num_of b"
    with a show "cell_le a b"
      by (auto simp: list_all_iff is_Num_def cell_le_def num_of_def split: cell.splits)
  qed
qed

lemma sorted_py_sorted:
  assumes "sorted_py cs = Inr ss" "NaN \<notin> set ss"
  shows "sorted_wrt cell_le ss"
proof (cases "list_all is_Str cs")
  case True
  then have "ss = sort_key str_of cs" using assms(1) by (simp add: sorted_py_def)
  moreover have "list_all is_Str (sort_key str_of cs)" using True by (simp add: list_all_iff)
  ultimately show ?thesis by (simp add: cell_le_strings)
next
  case False
  with assms(1) have n: "\<not> list_ex is_Str cs" and
    ss: "ss = sort_key num_of (filter is_Num cs) @ filter (\<lambda>c. c = NaN) cs"
    by (auto simp: sorted_py_def split: if_splits)
  from assms(2) ss have "filter (\<lambda>c. c = NaN) cs = []" by (auto simp: filter_empty_conv)
  with ss have "ss = sort_key num_of (filter is_Num cs)" by simp
  moreover have "list_all is_Num (sort_key num_of (filter is_Num cs))"
    by (simp add: list_all_iff)
  ultimately show ?thesis by (simp add: cell_le_numbers)
qed

lemma cell_le_refl: "c \<noteq> NaN \<Longrightarrow> cell_le c c"
  by (cases c) (simp_all add: cell_le_def)

lemma cat_code_less: "v \<in> set cats \<Longrightarrow> cat_code cats v < length cats"
  by (induction cats) (auto simp: cat_code_def)

lemma cat_code_nth: "v \<in> set cats \<Longrightarrow> cats ! cat_code cats v = v"
  by (induction cats) (auto simp: cat_code_def)

lemma cat_code_mono:
  assumes "sorted_wrt cell_le cats" "NaN \<notin> set cats" "a \<in> set cats" "b \<in> set cats"
    "cat_code cats a \<le> cat_code cats b"
  shows "cell_le a b"
proof (cases "cat_code cats a = cat_code cats b")
  case True
  then have "a = b" using cat_code_nth [OF assms(3)] cat_code_nth [OF assms(4)] by metis
  with assms(2,3) show ?thesis by (auto intro: cell_le_refl)
next
  case False
  with assms(5) have "cat_code cats a < cat_code cats b" by simp
  from sorted_wrt_nth_less [OF assms(1) this cat_code_less [OF assms(4)]]
  show ?thesis by (simp add: cat_code_nth assms(3,4))
qed

lemma sorted_by_code:
  assumes "sorted (map (cat_code cats) vs)" "set vs \<subseteq> set cats"
    "sorted_wrt cell_le cats" "NaN \<notin> set cats"
  shows "sorted_wrt cell_le vs"
proof -
  have "sorted_wrt (\<lambda>a b. cat_code cats a \<le> cat_code cats b) vs"
    using assms(1) by (simp add: sorted_wrt_map)
  then show ?thesis
  proof (rule sorted_wrt_mono_rel [rotated])
    fix a b assume "a \<in> set vs" "b \<in> set vs" "cat_code cats a \<le> cat_code cats b"
    with assms(2) show "cell_le a b" by (auto intro: cat_code_mono [OF assms(3,4)])
  qed
qed

lemma get_filtered_data_time:
  assumes "get_filtered_data sel p h = (Inr (Some a), h')" "''Time'' \<in> set (columns (h ! p))"
  shows "\<exists>cats. categories (h' ! a) ''Time'' = Some cats \<and>
           sorted_py (unique (map (\<lambda>r. r ''Time'') (rows (h' ! a)))) = Inr cats \<and>
           distinct cats \<and> NaN \<notin> set cats \<and>
           set cats = (\<lambda>r. r ''Time'') ` set (rows (h' ! a)) \<and>
           sorted_wrt cell_le cats"
proof -
  from get_filtered_data_Some [OF assms(1)] assms(2) obtain g d cats where
    a: "a = Suc (length h)" and h': "h' = h @ [g, d]" and
    s: "sorted_py (unique (map (\<lambda>r. r ''Time'') (rows d))) = Inr cats" and
    n: "NaN \<notin> set cats" and di: "distinct cats" and
    c: "categories d = (categories (h ! p))(''Time'' := Some cats)"
    by (auto split: if_splits)
  have d: "h' ! a = d" by (simp add: a h' nth_append)
  have "set cats = (\<lambda>r. r ''Time'') ` set (rows d)"
    using sorted_py_set [OF s] by (simp add: set_unique)
  with s n di c sorted_py_sorted [OF s n] show ?thesis by (simp add: d)
qed


section \<open>The traces\<close>

lemma getmask_eq: "rows (getmask d (map (\<lambda>c. c = t) (map (\<lambda>r. r c') (rows d))))
   = filter (\<lambda>r. r c' = t) (rows d)"
  using getmask_map [of d "\<lambda>r. r c' = t"] by (simp add: o_def)

lemma group_Inr:
  assumes "group d t = Inr g" "categories d ''Time'' = Some cats"
  shows "rows g = sort_key (\<lambda>r. cat_code cats (r ''Time'')) (filter (\<lambda>r. r ''Type'' = t) (rows d))"
    and "columns g = columns d"
  using assms getmask_eq [of d t "''Type''"]
  by (auto simp: group_def and_then_Inr getcol_Inr sort_values_def getmask_def split: if_splits)

lemma group_Time: "group d t = Inr g \<Longrightarrow> ''Time'' \<in> set (columns d)"
  by (auto simp: group_def and_then_Inr sort_values_def getmask_def split: if_splits)

lemma plot_loop_Inr:
  "plot_loop d price ts = Inr fig \<Longrightarrow>
     map tr_name fig = filter (\<lambda>t. t \<in> (\<lambda>r. r ''Type'') ` set (rows d)) ts \<and>
     (\<forall>tr \<in> set fig. tr_name tr \<in> (\<lambda>r. r ''Type'') ` set (rows d) \<and>
        (\<exists>g. group d (tr_name tr) = Inr g \<and>
             tr_x tr = map (\<lambda>r. r ''Time'') (rows g) \<and>
             tr_y tr = map (\<lambda>r. r price) (rows g)))"
proof (induction ts arbitrary: fig)
  case Nil
  then show ?case by simp
next
  case (Cons t ts)
  from Cons.prems have ty: "''Type'' \<in> set (columns d)"
    by (auto simp: and_then_Inr getcol_Inr)
  show ?case
  proof (cases "t \<in> (\<lambda>r. r ''Type'') ` set (rows d)")
    case False
    with Cons.prems ty have "plot_loop d price ts = Inr fig"
      by (simp add: and_then_def getcol_def)
    from Cons.IH [OF this] False show ?thesis by simp
  next
    case True
    with Cons.prems ty obtain g rest where
      g: "group d t = Inr g" and p: "price \<in> set (columns g)" and
      r: "plot_loop d price ts = Inr rest" and
      f: "fig = \<lparr>tr_name = t, tr_x = map (\<lambda>r. r ''Time'') (rows g),
                 tr_y = map (\<lambda>r. r price) (rows g), tr_symbol = symbol_get t\<rparr> # rest"
      by (auto simp: and_then_Inr getcol_Inr)
    from Cons.IH [OF r] True g f show ?thesis by auto
  qed
qed

lemma render_chart_Figure:
  assumes "render_chart d price = Inr (Figure fig tv)"
  shows "\<exists>cats. categories d ''Type'' = Some cats \<and> plot_loop d price cats = Inr fig \<and>
           tickvals d = Inr tv"
  using assms
  by (auto simp: render_chart_def and_then_Inr split: if_splits option.splits)

section \<open>The ticks\<close>

lemma length_every4: "length (every4 xs) = (length xs + 3) div 4"
  by (induction xs rule: every4.induct) auto

lemma nth_every4: "k < length (every4 xs) \<Longrightarrow> every4 xs ! k = xs ! (4 * k)"
proof (induction xs arbitrary: k rule: every4.induct)
  case 1
  then show ?case by simp
next
  case (2 c cs)
  show ?case
  proof (cases k)
    case 0
    then show ?thesis by simp
  next
    case (Suc j)
    with "2.prems" have j: "j < length (every4 (drop 3 cs))" by simp
    then have "4 * j < length (drop 3 cs)" by (simp add: length_every4)
    then have "3 + 4 * j < length cs" by simp
    with "2.IH" [OF j] Suc show ?thesis by (simp add: add.commute)
  qed
qed

lemma set_every4: "set (every4 xs) = {xs ! i | i. i < length xs \<and> 4 dvd i}"
proof (intro set_eqI iffI)
  fix v assume "v \<in> set (every4 xs)"
  then obtain k where k: "k < length (every4 xs)" "v = every4 xs ! k"
    by (auto simp: in_set_conv_nth)
  then have "4 * k < length xs" by (simp add: length_every4)
  with k nth_every4 [OF k(1)] show "v \<in> {xs ! i | i. i < length xs \<and> 4 dvd i}" by auto
next
  fix v assume "v \<in> {xs ! i | i. i < length xs \<and> 4 dvd i}"
  then obtain k where k: "4 * k < length xs" "v = xs ! (4 * k)" by (auto elim: dvdE)
  then have l: "k < length (every4 xs)" by (simp add: length_every4)
  with k nth_every4 [OF l] show "v \<in> set (every4 xs)" by (metis nth_mem)
qed


lemma plot_or_message_Figure:
  assumes "plot_or_message data h price = Inr (Figure fig tv)"
  shows "\<exists>a. data = Some a \<and> rows (h ! a) \<noteq> [] \<and> render_chart (h ! a) price = Inr (Figure fig tv)"
  using assms by (auto simp: plot_or_message_def split: option.splits if_splits)

lemma tickvals_Inr:
  "tickvals d = Inr tv \<Longrightarrow> categories d ''Time'' = Some cats \<Longrightarrow> ''Time'' \<in> set (columns d)
   \<Longrightarrow> tv = Some (every4 cats)"
  by (auto simp: tickvals_def)

lemma get_filtered_data_columns:
  assumes "get_filtered_data sel p h = (Inr (Some a), h')"
  shows "columns (h' ! a) = columns (h ! p)"
    and "c \<noteq> ''Time'' \<Longrightarrow> categories (h' ! a) c = categories (h ! p) c"
proof -
  from get_filtered_data_Some [OF assms] obtain g d where
    a: "a = Suc (length h)" "h' = h @ [g, d]" and c: "columns d = columns (h ! p)" and
    k: "if ''Time'' \<in> set (columns d)
        then \<exists>cats. sorted_py (unique (map (\<lambda>r. r ''Time'') (rows d))) = Inr cats \<and>
               NaN \<notin> set cats \<and> distinct cats \<and>
               categories d = (categories (h ! p))(''Time'' := Some cats)
        else categories d = categories (h ! p)"
    by blast
  have d: "h' ! a = d" by (simp add: a nth_append)
  show "columns (h' ! a) = columns (h ! p)" by (simp add: d c)
  show "c \<noteq> ''Time'' \<Longrightarrow> categories (h' ! a) c = categories (h ! p) c"
    using k by (auto simp: d split: if_splits)
qed

section \<open>Runs that raise nothing\<close>

text \<open>What \<open>prepare\<close> establishes when it raises nothing.\<close>

lemma setcol_Inr:
  "setcol f c vals cats = Inr f' \<Longrightarrow> c \<in> set (columns f) \<Longrightarrow>
     columns f' = columns f \<and> categories f' = (categories f)(c := cats) \<and>
     length (rows f') = length (rows f) \<and>
     (\<forall>i < length (rows f). rows f' ! i = (rows f ! i)(c := vals ! i))"
  by (auto simp: setcol_def split: if_splits)

lemma setcol_rows_eq:
  "setcol f c vals cats = Inr f' \<Longrightarrow> rows f' = map (\<lambda>(r, v). r(c := v)) (zip (rows f) vals)"
  by (cases "length vals \<noteq> length (rows f)") (auto simp: setcol_def)

lemma setcol_rows:
  assumes "setcol f c vals cats = Inr f'" "r' \<in> set (rows f')"
  shows "\<exists>r v. r \<in> set (rows f) \<and> v \<in> set vals \<and> r' = r(c := v)"
proof -
  from assms(2) have "r' \<in> (\<lambda>(r, v). r(c := v)) ` set (zip (rows f) vals)"
    unfolding setcol_rows_eq [OF assms(1)] by simp
  then obtain r v where p: "(r, v) \<in> set (zip (rows f) vals)" and e: "r' = r(c := v)"
    by (auto simp only: image_iff split_paired_all prod.case)
  from p have "r \<in> set (rows f)" by (rule set_zip_leftD)
  moreover from p have "v \<in> set vals" by (rule set_zip_rightD)
  ultimately show ?thesis using e by blast
qed

lemma to_numeric_cell: "v \<in> set (to_numeric parse col) \<Longrightarrow> \<not> is_Str v"
  by (auto simp: to_numeric_def is_Str_def split: cell.splits option.splits)

lemma prepare_Inr:
  assumes "prepare parse f = Inr s"
  shows "columns s = columns f"
    and "categories s ''Type'' = Some (map Str type_order)"
    and "\<not> list_ex (\<lambda>r. is_Str (r ''Year'')) (rows s)"
proof -
  let ?yr = "to_numeric parse (map (\<lambda>r. r ''Year'') (rows f))"
  from assms obtain s1 where
    y: "''Year'' \<in> set (columns f)" and
    s1: "setcol f ''Year'' ?yr None = Inr s1" and
    r: "and_then (getcol s1 ''Type'') (\<lambda>ty.
          and_then (Categorical ty (map Str type_order)) (\<lambda>col.
            setcol s1 ''Type'' col (Some (map Str type_order)))) = Inr s"
    unfolding prepare_def and_then_Inr getcol_Inr by blast
  from r obtain col where
    t: "''Type'' \<in> set (columns s1)" and
    s: "setcol s1 ''Type'' col (Some (map Str type_order)) = Inr s"
    unfolding and_then_Inr getcol_Inr by blast
  have a: "columns s1 = columns f" using setcol_Inr [OF s1 y] by (rule conjunct1)
  have b: "columns s = columns s1" using setcol_Inr [OF s t] by (rule conjunct1)
  show "columns s = columns f" by (simp only: a b)
  have "categories s = (categories s1)(''Type'' := Some (map Str type_order))"
    using setcol_Inr [OF s t] by blast
  then show "categories s ''Type'' = Some (map Str type_order)" by simp
  show "\<not> list_ex (\<lambda>r. is_Str (r ''Year'')) (rows s)"
  proof
    assume "list_ex (\<lambda>r. is_Str (r ''Year'')) (rows s)"
    then obtain r' where r': "r' \<in> set (rows s)" "is_Str (r' ''Year'')"
      unfolding list_ex_iff by blast
    from setcol_rows [OF s r'(1)] obtain r1 v where
      r1: "r1 \<in> set (rows s1)" "r' = r1(''Type'' := v)" by blast
    from setcol_rows [OF s1 r1(1)] obtain r0 v0 where
      r0: "v0 \<in> set ?yr" "r1 = r0(''Year'' := v0)" by blast
    have "r' ''Year'' = v0" unfolding r1(2) r0(2) by simp
    with r'(2) to_numeric_cell [OF r0(1)] show False by simp
  qed
qed

text \<open>
  On a filterable table that has the \<open>Time\<close> column and the price column, with \<open>Type\<close>
  categorical, a run with a sufficient selection ends in the message or in a figure.
\<close>

lemma group_categorical:
  assumes "''Type'' \<in> set (columns d)" "''Time'' \<in> set (columns d)"
    "categories d ''Time'' = Some cats"
  shows "\<exists>g. group d t = Inr g \<and> columns g = columns d"
  using assms by (simp add: group_def and_then_def getcol_def sort_values_def getmask_def)

lemma plot_loop_total:
  assumes "''Type'' \<in> set (columns d)" "''Time'' \<in> set (columns d)" "price \<in> set (columns d)"
    "categories d ''Time'' = Some cats"
  shows "\<exists>fig. plot_loop d price ts = Inr fig"
proof (induction ts)
  case Nil
  then show ?case by simp
next
  case (Cons t ts)
  then obtain rest where r: "plot_loop d price ts = Inr rest" by blast
  from group_categorical [OF assms(1,2,4), of t] obtain g where
    g: "group d t = Inr g" "columns g = columns d" by blast
  with assms r show ?case by (simp add: and_then_def getcol_def)
qed

lemma render_chart_total:
  assumes "''Type'' \<in> set (columns d)" "''Time'' \<in> set (columns d)" "price \<in> set (columns d)"
    "categories d ''Time'' = Some cats" "categories d ''Type'' = Some tys"
  shows "\<exists>fig. render_chart d price = Inr (Figure fig (Some (every4 cats)))"
proof -
  from plot_loop_total [OF assms(1-4), of tys] obtain fig where
    "plot_loop d price tys = Inr fig" by blast
  with assms show ?thesis
    by (simp add: render_chart_def and_then_def getcol_def tickvals_def)
qed

lemma show_selection_total:
  assumes "selected_types sel \<noteq> []" "selected_quarters sel \<noteq> []"
    "year_range sel = Some (yr_min, yr_max)" "filterable (h ! p)"
    "''Time'' \<in> set (columns (h ! p))" "price_selector sel \<in> set (columns (h ! p))"
    "categories (h ! p) ''Type'' = Some tys"
  shows "show_selection sel p h = Inr Message \<or>
         (\<exists>fig tv. show_selection sel p h = Inr (Figure fig tv))"
proof -
  let ?d = "filtered (h ! p) (selected_types sel) yr_min yr_max (selected_quarters sel)"
  let ?g = "(h ! p)\<lparr>rows := filter (row_selected (selected_types sel) yr_min yr_max
                                   (selected_quarters sel)) (rows (h ! p))\<rparr>"
  have run: "get_filtered_data sel p h = (Inr (Some (Suc (length h))), h @ [?g, ?d])"
    by (rule get_filtered_data_filterable [OF assms(1-4)])
  have nth: "(h @ [?g, ?d]) ! Suc (length h) = ?d" by (simp add: nth_append)
  from assms(4,5,6) have c: "''Type'' \<in> set (columns ?d)" "''Time'' \<in> set (columns ?d)"
    "price_selector sel \<in> set (columns ?d)"
    by (simp_all add: columns_filtered filterable_def)
  from assms(5,7) obtain cats where k: "categories ?d ''Time'' = Some cats"
    "categories ?d ''Type'' = Some tys"
    by (simp add: categories_filtered)
  from render_chart_total [OF c k] obtain fig where
    "render_chart ?d (price_selector sel) = Inr (Figure fig (Some (every4 cats)))" by blast
  then show ?thesis
    by (simp add: show_selection_def run plot_or_message_def nth)
qed

section \<open>Sample runs\<close>

lemma filterable_quarterly: "filterable (table quarterly_rows)"
  by (simp add: filterable_def table_def schema_def quarterly_rows_def mk_row_def is_Str_def)

lemma quarterly_run:
  "get_filtered_data quarterly_selection 0 [table quarterly_rows] =
     (Inr (Some 2), [table quarterly_rows, table quarterly_rows, quarterly_view])"
  using get_filtered_data_filterable [of quarterly_selection 2018 2019 "[table quarterly_rows]" 0]
    filterable_quarterly
  by (simp add: quarterly_selection_def filtered_def Let_def quarterly_view_def)
     (simp add: table_def schema_def quarterly_rows_def mk_row_def row_selected_def unique_def str_of_def)

lemma quarterly_chart:
  "plot_or_message (Some 2) [table quarterly_rows, table quarterly_rows, quarterly_view] ''Average''
   = Inr (Figure quarterly_traces (Some [Str ''2018-Q1'', Str ''2019-Q1'']))"
  by (simp add: plot_or_message_def render_chart_def and_then_def getcol_def tickvals_def
        group_def sort_values_def getmask_def cat_code_def symbol_get_def symbol_map_def
        table_def schema_def type_order_def quarterly_rows_def mk_row_def
        quarterly_view_def quarterly_traces_def)

lemma filterable_millennium: "filterable (table millennium_rows)"
  by (simp add: filterable_def table_def schema_def millennium_rows_def mk_row_def is_Str_def)

lemma millennium_run:
  "get_filtered_data millennium_selection 0 [table millennium_rows] =
     (Inr (Some 2), [table millennium_rows, table millennium_rows, millennium_view])"
  using get_filtered_data_filterable [of millennium_selection 999 1000 "[table millennium_rows]" 0]
    filterable_millennium
  by (simp add: millennium_selection_def filtered_def Let_def millennium_view_def)
     (simp add: table_def schema_def millennium_rows_def mk_row_def row_selected_def unique_def str_of_def)

lemma quarterly_Time: "''Time'' \<in> set (columns ([table quarterly_rows] ! 0))"
  by (simp add: table_def schema_def)

lemma quarterly_Type:
  "categories ([table quarterly_rows] ! 0) ''Type'' = Some (map Str type_order)"
  by (simp add: table_def)

lemma quarterly_nth: "[table quarterly_rows, table quarterly_rows, quarterly_view] ! 2 = quarterly_view"
  by simp

section \<open>What the filter keeps\<close>

text \<open>
  C2: every row of the table that \<open>get_filtered_data\<close> returns has a type among the
  selected types, a quarter among the selected quarters, and a year between the two bounds
  of the year range, both bounds included.
\<close>

theorem filtered_rows_match:
  assumes "get_filtered_data sel stumpage h = (Inr (Some data), h')"
    and "year_range sel = Some (yr_min, yr_max)"
    and "r \<in> set (rows (h' ! data))"
  shows "(\<exists>s. r ''Type'' = Str s \<and> s \<in> set (selected_types sel)) \<and>
         (\<exists>q. r ''Quarter'' = Str q \<and> q \<in> set (selected_quarters sel)) \<and>
         (\<exists>y. r ''Year'' = Num y \<and> real_of_int yr_min \<le> y \<and> y \<le> real_of_int yr_max)"
proof -
  from get_filtered_data_Some [OF assms(1)] assms(2) obtain g d where
    "data = Suc (length h)" "h' = h @ [g, d]"
    "rows d = filter (row_selected (selected_types sel) yr_min yr_max (selected_quarters sel))
                (rows (h ! stumpage))"
    by auto
  with assms(3) have "row_selected (selected_types sel) yr_min yr_max (selected_quarters sel) r"
    by (simp add: nth_append)
  then show ?thesis by (rule row_selectedD)
qed

theorem filtered_rows_match_witness:
  "\<exists>h'. get_filtered_data sample_selection 0 [table sample_rows] = (Inr (Some 2), h') \<and>
     rows (h' ! 2) = [mk_row ''Pine Sawtimber'' ''2019-Q1'' 2019 ''Q1'' 20 25 30,
                      mk_row ''Pine Sawtimber'' ''2018-Q2'' 2018 ''Q2'' 21 24 28] \<and>
     list_all (\<lambda>r.
        (\<exists>s. r ''Type'' = Str s \<and> s \<in> set [''Pine Sawtimber'']) \<and>
        (\<exists>q. r ''Quarter'' = Str q \<and> q \<in> set [''Q1'', ''Q2'']) \<and>
        (\<exists>y. r ''Year'' = Num y \<and> 2018 \<le> y \<and> y \<le> 2020)) (rows (h' ! 2))"
proof -
  have y: "year_range sample_selection = Some (2018, 2020)"
    by (simp add: sample_selection_def)
  note m = filtered_rows_match [OF sample_run y]
  have "\<forall>r \<in> set (rows ([table sample_rows,
       (table sample_rows)\<lparr>rows := filter (row_selected [''Pine Sawtimber''] 2018 2020 [''Q1'', ''Q2'']) sample_rows\<rparr>,
       filtered (table sample_rows) [''Pine Sawtimber''] 2018 2020 [''Q1'', ''Q2'']] ! 2)).
        (\<exists>s. r ''Type'' = Str s \<and> s \<in> set [''Pine Sawtimber'']) \<and>
        (\<exists>q. r ''Quarter'' = Str q \<and> q \<in> set [''Q1'', ''Q2'']) \<and>
        (\<exists>y. r ''Year'' = Num y \<and> 2018 \<le> y \<and> y \<le> 2020)"
    using m by (simp add: sample_selection_def)
  with sample_run sample_filtered_rows show ?thesis by (simp add: list_all_iff)
qed

section \<open>The table that is read\<close>

text \<open>
  C10: \<open>get_filtered_data\<close> leaves the table at \<open>stumpage\<close>, and every table that was in the
  store, as it found it, whatever it returns or raises; its re-typing of \<open>Time\<close> writes to
  the copy only.
\<close>

theorem get_filtered_data_frame:
  assumes "stumpage < length h" and "get_filtered_data sel stumpage h = (res, h')"
  shows "h' ! stumpage = h ! stumpage \<and> take (length h) h' = h"
proof -
  from get_filtered_data_extends [of sel stumpage h] assms(2)
  obtain new where "h' = h @ new" by auto
  with assms(1) show ?thesis by (simp add: nth_append)
qed


theorem get_filtered_data_frame_witness:
  "snd (get_filtered_data sample_selection 0 [table sample_rows]) ! 0 = table sample_rows \<and>
   take 1 (snd (get_filtered_data sample_selection 0 [table sample_rows])) = [table sample_rows]"
  using get_filtered_data_frame [of 0 "[table sample_rows]" sample_selection
      "fst (get_filtered_data sample_selection 0 [table sample_rows])"
      "snd (get_filtered_data sample_selection 0 [table sample_rows])"]
  by simp


section \<open>Insufficient selection\<close>

text \<open>
  C3: when no type is selected, or no quarter, or the year range is unset,
  \<open>get_filtered_data\<close> returns None, whatever the other fields of the selection and
  whatever the store holds, and leaves the store as it is.
\<close>

theorem get_filtered_data_insufficient:
  "selected_types sel = [] \<or> selected_quarters sel = [] \<or> year_range sel = None
   \<Longrightarrow> get_filtered_data sel stumpage h = (Inr None, h)"
  by (simp add: get_filtered_data_def)

theorem get_filtered_data_insufficient_witness:
  "get_filtered_data
     \<lparr>price_selector = ''Average'', selected_types = [],
      selected_quarters = [''Q1''], year_range = Some (2015, 2023)\<rparr> 0 [DataFrame]
   = (Inr None, [DataFrame])"
  using get_filtered_data_insufficient
    [of "\<lparr>price_selector = ''Average'', selected_types = [],
          selected_quarters = [''Q1''], year_range = Some (2015, 2023)\<rparr>" 0 "[DataFrame]"]
  by simp

section \<open>Clear All\<close>

text \<open>
  C4, as the claim states it, fails: "Clear All" does not touch the price. With the radio
  at Minimum, the selection after the click has the price Minimum and is not the selection
  of a fresh session.
\<close>

theorem clear_all_keeps_price:
  "price_selector (fst (controls 2015 2023
       \<lparr>radio = ''Minimum'', types_widget = [''Pine Sawtimber''], quarters_widget = [''Q1''],
        slider = (2018, 2020), clear_all = True\<rparr> fresh_session)) = ''Minimum'' \<and>
   fst (controls 2015 2023
       \<lparr>radio = ''Minimum'', types_widget = [''Pine Sawtimber''], quarters_widget = [''Q1''],
        slider = (2018, 2020), clear_all = True\<rparr> fresh_session)
   \<noteq> fst (controls 2015 2023 (fresh_widgets 2015 2023) fresh_session)"
  by (simp add: controls_def fresh_widgets_def fresh_session_def session_get_def)

text \<open>
  C4, amended: in the run of the click, "Clear All" sets the selected types to empty, the
  selected quarters to empty and the year range to the full observed span, all three
  together, whatever the widgets and the session state held; the price stays what the
  radio shows, so the selection is that of a fresh session exactly when the radio is at
  Average.
\<close>

theorem clear_all_resets_filters:
  assumes "clear_all w" and "controls min_year max_year w ss = (sel, ss')"
  shows "selected_types sel = [] \<and> selected_quarters sel = [] \<and>
         year_range sel = Some (min_year, max_year) \<and>
         price_selector sel = radio w \<and>
         (radio w = ''Average'' \<longrightarrow>
            sel = fst (controls min_year max_year (fresh_widgets min_year max_year) fresh_session))"
  using assms
  by (auto simp: controls_def fresh_widgets_def fresh_session_def session_get_def Let_def)

theorem clear_all_resets_filters_witness:
  "selected_types (fst (controls 2015 2023
       \<lparr>radio = ''Average'', types_widget = [''Pine Sawtimber''], quarters_widget = [''Q1''],
        slider = (2018, 2020), clear_all = True\<rparr> fresh_session)) = [] \<and>
   selected_quarters (fst (controls 2015 2023
       \<lparr>radio = ''Average'', types_widget = [''Pine Sawtimber''], quarters_widget = [''Q1''],
        slider = (2018, 2020), clear_all = True\<rparr> fresh_session)) = [] \<and>
   year_range (fst (controls 2015 2023
       \<lparr>radio = ''Average'', types_widget = [''Pine Sawtimber''], quarters_widget = [''Q1''],
        slider = (2018, 2020), clear_all = True\<rparr> fresh_session)) = Some (2015, 2023) \<and>
   fst (controls 2015 2023
       \<lparr>radio = ''Average'', types_widget = [''Pine Sawtimber''], quarters_widget = [''Q1''],
        slider = (2018, 2020), clear_all = True\<rparr> fresh_session)
   = fst (controls 2015 2023 (fresh_widgets 2015 2023) fresh_session)"
proof -
  let ?w = "\<lparr>radio = ''Average'', types_widget = [''Pine Sawtimber''], quarters_widget = [''Q1''],
        slider = (2018, 2020), clear_all = True\<rparr>"
  have c: "clear_all ?w" by simp
  have e: "controls 2015 2023 ?w fresh_session
           = (fst (controls 2015 2023 ?w fresh_session), snd (controls 2015 2023 ?w fresh_session))"
    by simp
  from clear_all_resets_filters [OF c e] have "radio ?w = ''Average''" by simp
  with clear_all_resets_filters [OF c e] show ?thesis by blast
qed

section \<open>A failed load\<close>

text \<open>
  C5: when the load fails, \<open>load_stumpage\<close> does return the empty table, and the next
  statement, which reads its \<open>Year\<close> column, raises a KeyError that nothing catches: the
  run ends before any control is drawn.
\<close>

theorem startup_after_failed_load:
  "load_stumpage (Inl e) = (DataFrame, Some e) \<and>
   startup parse (Inl e) = Inl (KeyError ''Year'')"
  by (simp add: startup_def load_stumpage_def prepare_def and_then_def getcol_def DataFrame_def)

lemma year_span_no_rows:
  "''Year'' \<in> set (columns f) \<Longrightarrow> rows f = [] \<Longrightarrow> year_span f = Inl ValueError"
  by (simp add: year_span_def and_then_def getcol_def col_min_def py_int_def)

section \<open>The check of the price column\<close>

lemma render_chart_present:
  "price \<in> set (columns data) \<Longrightarrow> render_chart data price \<noteq> Inr (ColumnNotFound c)"
  by (auto simp: render_chart_def and_then_def split: sum.splits option.splits)

text \<open>
  C8: in the branch that draws the chart, a price column that the table does not have gives
  the error display naming the column and no figure; a price column that the table has
  never gives that display.
\<close>

theorem price_column_check:
  "(price \<notin> set (columns data) \<longrightarrow>
      render_chart data price = Inr (ColumnNotFound price) \<and>
      (\<forall>fig tv. render_chart data price \<noteq> Inr (Figure fig tv))) \<and>
   (price \<in> set (columns data) \<longrightarrow> (\<forall>c. render_chart data price \<noteq> Inr (ColumnNotFound c)))"
  using render_chart_present by (simp add: render_chart_def)


theorem price_column_check_witness:
  "render_chart ((table sample_rows)\<lparr>columns := [''Type'', ''Time'', ''Year'', ''Quarter'']\<rparr>) ''Average''
     = Inr (ColumnNotFound ''Average'') \<and>
   render_chart (table sample_rows) ''Average'' \<noteq> Inr (ColumnNotFound ''Average'')"
  using price_column_check [of "''Average''"
          "(table sample_rows)\<lparr>columns := [''Type'', ''Time'', ''Year'', ''Quarter'']\<rparr>"]
        price_column_check [of "''Average''" "table sample_rows"]
  by (simp add: table_def schema_def)

text \<open>
  Seen from the branch above it: the error display appears exactly when there is a table
  with at least one row that lacks the price column.
\<close>

lemma plot_or_message_ColumnNotFound:
  "plot_or_message data h price = Inr (ColumnNotFound c) \<longleftrightarrow>
     c = price \<and> (\<exists>a. data = Some a \<and> rows (h ! a) \<noteq> [] \<and> price \<notin> set (columns (h ! a)))"
  using render_chart_present [of price _ c]
  by (cases data) (auto simp: plot_or_message_def render_chart_def)

section \<open>The download\<close>

text \<open>The button is offered exactly when there is a table with at least one row.\<close>

lemma download_offered_iff:
  "download_offered data h \<longleftrightarrow> (\<exists>a. data = Some a \<and> rows (h ! a) \<noteq> [])"
  by (cases data) (simp_all add: download_offered_def)

section \<open>The order of the time labels in the output\<close>

text \<open>
  C1, as the claim states it, fails: the labels are sorted as strings. Two rows of one type,
  the last quarter of 999 and the first of 1000, are in chronological order in the table;
  the categories of \<open>Time\<close> and the rows of the group come out with 1000 before 999, which
  is not the order of their (Year, Quarter) pairs.
\<close>

theorem time_labels_not_chronological:
  "chronological millennium_rows \<and>
   get_filtered_data millennium_selection 0 [table millennium_rows] =
     (Inr (Some 2), [table millennium_rows, table millennium_rows, millennium_view]) \<and>
   categories millennium_view ''Time'' = Some [Str ''1000-Q1'', Str ''999-Q4''] \<and>
   group millennium_view (Str ''Pine Sawtimber'') =
     Inr (millennium_view\<lparr>rows :=
       [mk_row ''Pine Sawtimber'' ''1000-Q1'' 1000 ''Q1'' 33 34 35,
        mk_row ''Pine Sawtimber'' ''999-Q4'' 999 ''Q4'' 30 31 32]\<rparr>) \<and>
   \<not> chronological
       [mk_row ''Pine Sawtimber'' ''1000-Q1'' 1000 ''Q1'' 33 34 35,
        mk_row ''Pine Sawtimber'' ''999-Q4'' 999 ''Q4'' 30 31 32] \<and>
   plot_or_message (Some 2) [table millennium_rows, table millennium_rows, millennium_view]
       ''Average''
     = Inr (Figure
         [\<lparr>tr_name = Str ''Pine Sawtimber'', tr_x = [Str ''1000-Q1'', Str ''999-Q4''],
           tr_y = [Num 34, Num 31], tr_symbol = ''circle''\<rparr>]
         (Some [Str ''1000-Q1'']))"
proof (intro conjI)
  show "chronological millennium_rows"
    by (simp add: chronological_def period_le_def millennium_rows_def mk_row_def num_of_def str_of_def)
  show "get_filtered_data millennium_selection 0 [table millennium_rows] =
     (Inr (Some 2), [table millennium_rows, table millennium_rows, millennium_view])"
    by (rule millennium_run)
  show "categories millennium_view ''Time'' = Some [Str ''1000-Q1'', Str ''999-Q4'']"
    by (simp add: millennium_view_def)
  show "group millennium_view (Str ''Pine Sawtimber'') =
     Inr (millennium_view\<lparr>rows :=
       [mk_row ''Pine Sawtimber'' ''1000-Q1'' 1000 ''Q1'' 33 34 35,
        mk_row ''Pine Sawtimber'' ''999-Q4'' 999 ''Q4'' 30 31 32]\<rparr>)"
    by (simp add: group_def sort_values_def getmask_def and_then_def getcol_def cat_code_def
          millennium_view_def table_def schema_def millennium_rows_def mk_row_def)
  show "\<not> chronological
       [mk_row ''Pine Sawtimber'' ''1000-Q1'' 1000 ''Q1'' 33 34 35,
        mk_row ''Pine Sawtimber'' ''999-Q4'' 999 ''Q4'' 30 31 32]"
    by (simp add: chronological_def period_le_def mk_row_def num_of_def str_of_def)
  show "plot_or_message (Some 2) [table millennium_rows, table millennium_rows, millennium_view]
       ''Average''
     = Inr (Figure
         [\<lparr>tr_name = Str ''Pine Sawtimber'', tr_x = [Str ''1000-Q1'', Str ''999-Q4''],
           tr_y = [Num 34, Num 31], tr_symbol = ''circle''\<rparr>]
         (Some [Str ''1000-Q1'']))"
    by (simp add: plot_or_message_def render_chart_def and_then_def getcol_def tickvals_def
        group_def sort_values_def getmask_def cat_code_def symbol_get_def symbol_map_def
        table_def schema_def type_order_def millennium_rows_def mk_row_def millennium_view_def)
qed

text \<open>
  C1, amended: the categories of \<open>Time\<close> in the table that \<open>get_filtered_data\<close> returns are
  the distinct labels of that table in ascending string order (numeric order, were the
  labels numbers), and the time values of every trace are non-decreasing in that order.
\<close>

theorem time_labels_in_string_order:
  assumes "get_filtered_data sel stumpage h = (Inr (Some data), h')"
    and "''Time'' \<in> set (columns (h ! stumpage))"
    and "plot_or_message (Some data) h' price = Inr (Figure fig tv)"
  shows "(\<exists>cats. categories (h' ! data) ''Time'' = Some cats \<and> distinct cats \<and>
            set cats = (\<lambda>r. r ''Time'') ` set (rows (h' ! data)) \<and>
            sorted_wrt cell_le cats) \<and>
         (\<forall>tr \<in> set fig. sorted_wrt cell_le (tr_x tr))"
proof -
  from get_filtered_data_time [OF assms(1,2)] obtain cats where
    c: "categories (h' ! data) ''Time'' = Some cats" and di: "distinct cats" and
    n: "NaN \<notin> set cats" and
    se: "set cats = (\<lambda>r. r ''Time'') ` set (rows (h' ! data))" and
    so: "sorted_wrt cell_le cats" by blast
  from plot_or_message_Figure [OF assms(3)] render_chart_Figure obtain tys where
    pl: "plot_loop (h' ! data) price tys = Inr fig" by blast
  have "sorted_wrt cell_le (tr_x tr)" if "tr \<in> set fig" for tr
  proof -
    from plot_loop_Inr [OF pl] that obtain g where
      g: "group (h' ! data) (tr_name tr) = Inr g" and
      x: "tr_x tr = map (\<lambda>r. r ''Time'') (rows g)" by blast
    let ?rs = "filter (\<lambda>r. r ''Type'' = tr_name tr) (rows (h' ! data))"
    have r: "rows g = sort_key (\<lambda>r. cat_code cats (r ''Time'')) ?rs"
      by (rule group_Inr(1) [OF g c])
    have "sorted (map (cat_code cats) (tr_x tr))"
      unfolding x r by (simp add: o_def)
    moreover have "set (tr_x tr) \<subseteq> set cats"
      unfolding x r se by auto
    ultimately show ?thesis using so n by (rule sorted_by_code)
  qed
  with c di se so show ?thesis by blast
qed

text \<open>C1, amended, on the six quarters.\<close>

theorem time_labels_in_string_order_witness:
  "get_filtered_data quarterly_selection 0 [table quarterly_rows] =
     (Inr (Some 2), [table quarterly_rows, table quarterly_rows, quarterly_view]) \<and>
   plot_or_message (Some 2) [table quarterly_rows, table quarterly_rows, quarterly_view] ''Average''
     = Inr (Figure quarterly_traces (Some [Str ''2018-Q1'', Str ''2019-Q1''])) \<and>
   (\<exists>cats. categories quarterly_view ''Time'' = Some cats \<and> distinct cats \<and>
      set cats = (\<lambda>r. r ''Time'') ` set (rows quarterly_view) \<and> sorted_wrt cell_le cats) \<and>
   list_all (\<lambda>tr. sorted_wrt cell_le (tr_x tr)) quarterly_traces"
  using time_labels_in_string_order [OF quarterly_run quarterly_Time quarterly_chart]
    quarterly_run quarterly_chart
  unfolding quarterly_nth list_all_iff by blast

section \<open>One trace for each type\<close>

text \<open>
  C6: the traces come in the order of the five categories of \<open>Type\<close>, one for each
  category that has a row in the filtered table and none for the others, whatever the
  order of the rows; the rows of a trace are the rows of its type, ordered by the position
  of their time label among the categories of \<open>Time\<close>.
\<close>

theorem traces_in_type_order:
  assumes "get_filtered_data sel stumpage h = (Inr (Some data), h')"
    and "categories (h ! stumpage) ''Type'' = Some (map Str type_order)"
    and "plot_or_message (Some data) h' price = Inr (Figure fig tv)"
  shows "map tr_name fig
           = filter (\<lambda>t. t \<in> (\<lambda>r. r ''Type'') ` set (rows (h' ! data))) (map Str type_order) \<and>
         (\<forall>tr \<in> set fig. \<exists>rs cats.
            categories (h' ! data) ''Time'' = Some cats \<and> rs \<noteq> [] \<and>
            mset rs = mset (filter (\<lambda>r. r ''Type'' = tr_name tr) (rows (h' ! data))) \<and>
            tr_x tr = map (\<lambda>r. r ''Time'') rs \<and> tr_y tr = map (\<lambda>r. r price) rs \<and>
            sorted (map (\<lambda>r. cat_code cats (r ''Time'')) rs))"
proof -
  have ty: "categories (h' ! data) ''Type'' = Some (map Str type_order)"
    using get_filtered_data_columns(2) [OF assms(1), of "''Type''"] assms(2) by simp
  from plot_or_message_Figure [OF assms(3)]
  have rc: "render_chart (h' ! data) price = Inr (Figure fig tv)" by simp
  from render_chart_Figure [OF rc] obtain tys where
    "categories (h' ! data) ''Type'' = Some tys" "plot_loop (h' ! data) price tys = Inr fig"
    by blast
  with ty have pl: "plot_loop (h' ! data) price (map Str type_order) = Inr fig" by simp
  note L = plot_loop_Inr [OF pl]
  have G: "\<exists>rs cats.
            categories (h' ! data) ''Time'' = Some cats \<and> rs \<noteq> [] \<and>
            mset rs = mset (filter (\<lambda>r. r ''Type'' = tr_name tr) (rows (h' ! data))) \<and>
            tr_x tr = map (\<lambda>r. r ''Time'') rs \<and> tr_y tr = map (\<lambda>r. r price) rs \<and>
            sorted (map (\<lambda>r. cat_code cats (r ''Time'')) rs)" if "tr \<in> set fig" for tr
  proof -
    from L that obtain g where
      m: "tr_name tr \<in> (\<lambda>r. r ''Type'') ` set (rows (h' ! data))" and
      g: "group (h' ! data) (tr_name tr) = Inr g" and
      x: "tr_x tr = map (\<lambda>r. r ''Time'') (rows g)" and
      y: "tr_y tr = map (\<lambda>r. r price) (rows g)" by blast
    have "''Time'' \<in> set (columns (h ! stumpage))"
      using group_Time [OF g] get_filtered_data_columns(1) [OF assms(1)] by simp
    from get_filtered_data_time [OF assms(1) this] obtain cats where
      c: "categories (h' ! data) ''Time'' = Some cats" by blast
    let ?rs = "filter (\<lambda>r. r ''Type'' = tr_name tr) (rows (h' ! data))"
    have r: "rows g = sort_key (\<lambda>r. cat_code cats (r ''Time'')) ?rs"
      by (rule group_Inr(1) [OF g c])
    from m have "?rs \<noteq> []" by (auto simp: filter_empty_conv)
    then have "length (rows g) \<noteq> 0" unfolding r by simp
    then have 1: "rows g \<noteq> []" by simp
    have 2: "mset (rows g) = mset ?rs" unfolding r by simp
    have 3: "sorted (map (\<lambda>r. cat_code cats (r ''Time'')) (rows g))"
      unfolding r by simp
    show ?thesis
      by (rule exI [of _ "rows g"], rule exI [of _ cats]) (simp only: c 1 2 3 x y simp_thms)
  qed
  show ?thesis
  proof (rule conjI)
    show "map tr_name fig
           = filter (\<lambda>t. t \<in> (\<lambda>r. r ''Type'') ` set (rows (h' ! data))) (map Str type_order)"
      using L by (rule conjunct1)
    show "\<forall>tr \<in> set fig. \<exists>rs cats.
            categories (h' ! data) ''Time'' = Some cats \<and> rs \<noteq> [] \<and>
            mset rs = mset (filter (\<lambda>r. r ''Type'' = tr_name tr) (rows (h' ! data))) \<and>
            tr_x tr = map (\<lambda>r. r ''Time'') rs \<and> tr_y tr = map (\<lambda>r. r price) rs \<and>
            sorted (map (\<lambda>r. cat_code cats (r ''Time'')) rs)"
      using G by (rule ballI)
  qed
qed

text \<open>C6 on the six quarters: the selection names Pine Pulpwood first, the chart does not.\<close>

theorem traces_in_type_order_witness:
  "get_filtered_data quarterly_selection 0 [table quarterly_rows] =
     (Inr (Some 2), [table quarterly_rows, table quarterly_rows, quarterly_view]) \<and>
   plot_or_message (Some 2) [table quarterly_rows, table quarterly_rows, quarterly_view] ''Average''
     = Inr (Figure quarterly_traces (Some [Str ''2018-Q1'', Str ''2019-Q1''])) \<and>
   map tr_name quarterly_traces = [Str ''Pine Sawtimber'', Str ''Pine Pulpwood''] \<and>
   map tr_name quarterly_traces
     = filter (\<lambda>t. t \<in> (\<lambda>r. r ''Type'') ` set (rows quarterly_view)) (map Str type_order) \<and>
   list_all (\<lambda>tr. \<exists>rs cats.
      categories quarterly_view ''Time'' = Some cats \<and> rs \<noteq> [] \<and>
      mset rs = mset (filter (\<lambda>r. r ''Type'' = tr_name tr) (rows quarterly_view)) \<and>
      tr_x tr = map (\<lambda>r. r ''Time'') rs \<and> tr_y tr = map (\<lambda>r. r ''Average'') rs \<and>
      sorted (map (\<lambda>r. cat_code cats (r ''Time'')) rs)) quarterly_traces"
proof -
  have n: "map tr_name quarterly_traces = [Str ''Pine Sawtimber'', Str ''Pine Pulpwood'']"
    by (simp add: quarterly_traces_def)
  from traces_in_type_order [OF quarterly_run quarterly_Type quarterly_chart]
    quarterly_run quarterly_chart n
  show ?thesis unfolding quarterly_nth list_all_iff by blast
qed

section \<open>The tick labels\<close>

text \<open>
  C9: when a figure is drawn, its tick values are every fourth of the sorted distinct time
  labels of the filtered table, from the first: the labels at the positions 0, 4, 8, ...
\<close>

theorem ticks_every_fourth:
  assumes "get_filtered_data sel stumpage h = (Inr (Some data), h')"
    and "''Time'' \<in> set (columns (h ! stumpage))"
    and "plot_or_message (Some data) h' price = Inr (Figure fig tv)"
  shows "\<exists>cats. distinct cats \<and> sorted_wrt cell_le cats \<and>
           set cats = (\<lambda>r. r ''Time'') ` set (rows (h' ! data)) \<and>
           tv = Some (every4 cats) \<and>
           set (every4 cats) = {cats ! i | i. i < length cats \<and> 4 dvd i}"
proof -
  from get_filtered_data_time [OF assms(1,2)] obtain cats where
    c: "categories (h' ! data) ''Time'' = Some cats" and di: "distinct cats" and
    se: "set cats = (\<lambda>r. r ''Time'') ` set (rows (h' ! data))" and
    so: "sorted_wrt cell_le cats" by blast
  from plot_or_message_Figure [OF assms(3)] render_chart_Figure have
    "tickvals (h' ! data) = Inr tv" by blast
  moreover have "''Time'' \<in> set (columns (h' ! data))"
    using assms(2) get_filtered_data_columns(1) [OF assms(1)] by simp
  ultimately have "tv = Some (every4 cats)" using c by (simp add: tickvals_Inr)
  with di so se set_every4 [of cats] show ?thesis by blast
qed

text \<open>C9 on the six quarters: of six labels, the first and the fifth are shown.\<close>

theorem ticks_every_fourth_witness:
  "get_filtered_data quarterly_selection 0 [table quarterly_rows] =
     (Inr (Some 2), [table quarterly_rows, table quarterly_rows, quarterly_view]) \<and>
   plot_or_message (Some 2) [table quarterly_rows, table quarterly_rows, quarterly_view] ''Average''
     = Inr (Figure quarterly_traces (Some [Str ''2018-Q1'', Str ''2019-Q1''])) \<and>
   (\<exists>cats. distinct cats \<and> sorted_wrt cell_le cats \<and>
      set cats = (\<lambda>r. r ''Time'') ` set (rows quarterly_view) \<and>
      Some [Str ''2018-Q1'', Str ''2019-Q1''] = Some (every4 cats) \<and>
      set (every4 cats) = {cats ! i | i. i < length cats \<and> 4 dvd i})"
  using ticks_every_fourth [OF quarterly_run quarterly_Time quarterly_chart]
    quarterly_run quarterly_chart
  unfolding quarterly_nth by blast


end
